theory Spec2Isabelle
  imports Main "HOL-Library.Sublist"
begin

text \<open>
  A model of the text core of \<open>NotesCore\<close>, the class behind the notes command
  line tool: \<open>validateInput\<close>, \<open>escapeForAppleScript\<close>, \<open>sanitizeHTML\<close>,
  \<open>convertToHTML\<close> and \<open>convertHTMLToMarkdown\<close>. The methods are chains of
  \<open>String.prototype.replace\<close> calls with regular expressions, so the model has a
  backtracking matcher for the constructs that these expressions use, the replacement
  loop of \<open>replace\<close>, and then each method, rule by rule, in the order of the source.
\<close>

section \<open>JavaScript values and strings\<close>

text \<open>
  A JavaScript string is a sequence of UTF-16 code units. A code unit is modelled by its
  number; the program never computes with code units, it only compares them, so no
  wrap-around arises. \<open>js\<close> turns an ASCII literal into such a string.
\<close>

type_synonym jschar = nat
type_synonym jsstring = "jschar list"

definition ch :: "char \<Rightarrow> jschar" where
  "ch c = of_char c"

definition js :: "string \<Rightarrow> jsstring" where
  "js cs = map ch cs"

text \<open>
  The methods of \<open>NotesCore\<close> are untyped. The values that matter to them are the two
  absent values, a boolean (a non-string that can be truthy) and a string.
\<close>

datatype jsval = JUndefined | JNull | JBool bool | JStr jsstring

text \<open>\<open>!v\<close> of the source is \<open>falsy v\<close>: the empty string is falsy.\<close>

fun falsy :: "jsval \<Rightarrow> bool" where
  "falsy JUndefined = True"
| "falsy JNull = True"
| "falsy (JBool b) = (\<not> b)"
| "falsy (JStr s) = (s = [])"

text \<open>\<open>typeof v !== 'string'\<close>\<close>

fun not_string :: "jsval \<Rightarrow> bool" where
  "not_string (JStr s) = False"
| "not_string v = True"

text \<open>
  The errors of the program. \<open>validateInput\<close> throws \<open>Error('Invalid input: expected
  string')\<close>, \<open>Error('Title too long (max 255 chars)')\<close> and
  \<open>Error('Title cannot be empty')\<close>; calling \<open>.replace\<close> on a value that is not a
  string makes the runtime throw a \<open>TypeError\<close>.
\<close>

datatype error = InvalidType | TooLong | EmptyInput | TypeError

subsection \<open>Character classes of the regular expressions\<close>

definition is_word_char :: "jschar \<Rightarrow> bool" where
  "is_word_char c \<longleftrightarrow>
     (97 \<le> c \<and> c \<le> 122) \<or> (65 \<le> c \<and> c \<le> 90) \<or> (48 \<le> c \<and> c \<le> 57) \<or> c = 95"

definition is_digit :: "jschar \<Rightarrow> bool" where
  "is_digit c \<longleftrightarrow> 48 \<le> c \<and> c \<le> 57"

definition is_line_terminator :: "jschar \<Rightarrow> bool" where
  "is_line_terminator c \<longleftrightarrow> c = 10 \<or> c = 13 \<or> c = 0x2028 \<or> c = 0x2029"

text \<open>\<open>\s\<close>, which is also what \<open>trim\<close> removes: WhiteSpace and LineTerminator.\<close>

definition is_space :: "jschar \<Rightarrow> bool" where
  "is_space c \<longleftrightarrow>
     (9 \<le> c \<and> c \<le> 13) \<or> c = 32 \<or> c = 0xA0 \<or> c = 0x1680 \<or>
     (0x2000 \<le> c \<and> c \<le> 0x200A) \<or> c = 0x2028 \<or> c = 0x2029 \<or> c = 0x202F \<or>
     c = 0x205F \<or> c = 0x3000 \<or> c = 0xFEFF"

text \<open>
  The \<open>i\<close> flag without the \<open>u\<close> flag compares canonicalised code units, and the
  canonicalisation never maps a code unit above 127 to one below 128. Every letter of
  the patterns of this program is ASCII, so a pattern letter matches exactly its two
  ASCII cases.
\<close>

definition ascii_fold :: "jschar \<Rightarrow> jschar" where
  "ascii_fold c = (if 65 \<le> c \<and> c \<le> 90 then c + 32 else c)"

section \<open>Regular expressions\<close>

text \<open>
  The constructs that the patterns of the program use: a character class, sequence,
  greedy \<open>r*\<close>, lazy \<open>r*?\<close>, greedy \<open>r?\<close>, the negative lookahead \<open>(?!r)\<close>,
  \<open>\b\<close>, \<open>^\<close> and \<open>$\<close> under the \<open>m\<close> flag, \<open>^\<close> without it, and a capture
  group.
\<close>

datatype re =
    Cls "jschar \<Rightarrow> bool"
  | Eps
  | Seq re re
  | Star re
  | Lazy re
  | Opt re
  | NotAhead re
  | WordB
  | Bol
  | Eol
  | Bos
  | Grp nat re

text \<open>
  A match state: the current index, the code unit before it (none at the start of the
  input), the input from the index on, and the captures (group, start, end), newest
  first.
\<close>

type_synonym caps = "(nat \<times> nat \<times> nat) list"
type_synonym mstate = "nat \<times> jschar option \<times> jsstring \<times> caps"

definition word_before :: "jschar option \<Rightarrow> bool" where
  "word_before prev = (case prev of None \<Rightarrow> False | Some x \<Rightarrow> is_word_char x)"

definition word_after :: "jsstring \<Rightarrow> bool" where
  "word_after rest = (case rest of [] \<Rightarrow> False | x # xs \<Rightarrow> is_word_char x)"

definition at_line_start :: "jschar option \<Rightarrow> bool" where
  "at_line_start prev = (case prev of None \<Rightarrow> True | Some x \<Rightarrow> is_line_terminator x)"

definition at_line_end :: "jsstring \<Rightarrow> bool" where
  "at_line_end rest = (case rest of [] \<Rightarrow> True | x # xs \<Rightarrow> is_line_terminator x)"

text \<open>
  The backtracking matcher: \<open>rmatch r st\<close> lists the states in which \<open>r\<close> can end
  when started in \<open>st\<close>, in the order in which the backtracking of the language tries
  them: a greedy star tries one more iteration first, a lazy one tries to stop first.
  An iteration of a star that consumes nothing is dropped, as the language does
  (\<open>progress\<close> keeps the states that are further on). Every iteration that is kept
  consumes a code unit, so a star iterates at most once for each code unit of the input
  that is left: \<open>iterate\<close> counts the iterations down along it, and the count is
  never used up (\<open>star_unfold\<close> below gives the equations of the unbounded stars).
\<close>

fun add_cap :: "nat \<Rightarrow> nat \<Rightarrow> mstate \<Rightarrow> mstate" where
  "add_cap k p (e, prev, rest, c) = (e, prev, rest, (k, p, e) # c)"

fun progress :: "nat \<Rightarrow> mstate list \<Rightarrow> mstate list" where
  "progress p [] = []"
| "progress p ((e, prev, rest, c) # ms) =
     (if p < e then (e, prev, rest, c) # progress p ms else progress p ms)"

function rmatch :: "re \<Rightarrow> mstate \<Rightarrow> mstate list"
  and iterate :: "bool \<Rightarrow> re \<Rightarrow> jsstring \<Rightarrow> mstate \<Rightarrow> mstate list" where
  "rmatch (Cls P) (p, prev, rest, c) =
     (case rest of
        [] \<Rightarrow> []
      | x # xs \<Rightarrow> if P x then [(Suc p, Some x, xs, c)] else [])"
| "rmatch Eps st = [st]"
| "rmatch (Seq r1 r2) st = concat (map (rmatch r2) (rmatch r1 st))"
| "rmatch (Star r) (p, prev, rest, c) = iterate True r rest (p, prev, rest, c)"
| "rmatch (Lazy r) (p, prev, rest, c) = iterate False r rest (p, prev, rest, c)"
| "rmatch (Opt r) st = rmatch r st @ [st]"
| "rmatch (NotAhead r) st = (if rmatch r st = [] then [st] else [])"
| "rmatch WordB (p, prev, rest, c) =
     (if word_before prev \<noteq> word_after rest then [(p, prev, rest, c)] else [])"
| "rmatch Bol (p, prev, rest, c) = (if at_line_start prev then [(p, prev, rest, c)] else [])"
| "rmatch Eol (p, prev, rest, c) = (if at_line_end rest then [(p, prev, rest, c)] else [])"
| "rmatch Bos (p, prev, rest, c) = (if prev = None then [(p, prev, rest, c)] else [])"
| "rmatch (Grp k r) (p, prev, rest, c) = map (add_cap k p) (rmatch r (p, prev, rest, c))"
| "iterate greedy r [] st = [st]"
| "iterate greedy r (x # left) st =
     (if greedy
      then concat (map (iterate greedy r left) (progress (fst st) (rmatch r st))) @ [st]
      else st # concat (map (iterate greedy r left) (progress (fst st) (rmatch r st))))"
  by pat_completeness auto
termination
  by (relation "inv_image (less_than <*lex*> less_than)
        (\<lambda>x. case x of
                Inl (r, st) \<Rightarrow> (2 * size r, 0)
              | Inr (greedy, r, left, st) \<Rightarrow> (2 * size r + 1, length left))") auto

text \<open>
  The first state in backtracking order is the match at index \<open>p\<close>: its end and its
  captures.
\<close>

fun first_state :: "mstate list \<Rightarrow> (nat \<times> caps) option" where
  "first_state [] = None"
| "first_state ((e, prev, rest, c) # ms) = Some (e, c)"

definition match_at :: "re \<Rightarrow> nat \<Rightarrow> jschar option \<Rightarrow> jsstring \<Rightarrow> (nat \<times> caps) option" where
  "match_at r p prev rest = first_state (rmatch r (p, prev, rest, []))"

text \<open>
  \<open>RegExpBuiltinExec\<close>: the first index at or after \<open>p\<close> where the pattern matches,
  with the end of the match and its captures; the index at the end of the input is
  tried too.
\<close>

fun regexp_exec :: "re \<Rightarrow> nat \<Rightarrow> jschar option \<Rightarrow> jsstring \<Rightarrow> (nat \<times> nat \<times> caps) option" where
  "regexp_exec r p prev [] =
     (case match_at r p prev [] of None \<Rightarrow> None | Some m \<Rightarrow> Some (p, m))"
| "regexp_exec r p prev (x # xs) =
     (case match_at r p prev (x # xs) of
        None \<Rightarrow> regexp_exec r (Suc p) (Some x) xs
      | Some m \<Rightarrow> Some (p, m))"

text \<open>
  The matches that \<open>replace\<close> with a \<open>g\<close> pattern collects, from left to right. After
  a match that ends at \<open>e\<close> the search goes on at \<open>e\<close>, and one further when the
  match is empty: \<open>skip\<close> counts the code units up to there.
\<close>

fun match_all ::
  "re \<Rightarrow> nat \<Rightarrow> nat \<Rightarrow> jschar option \<Rightarrow> jsstring \<Rightarrow> (nat \<times> nat \<times> caps) list" where
  "match_all r skip p prev [] =
     (if 0 < skip then []
      else case match_at r p prev [] of None \<Rightarrow> [] | Some m \<Rightarrow> [(p, m)])"
| "match_all r skip p prev (x # xs) =
     (if 0 < skip then match_all r (skip - 1) (Suc p) (Some x) xs
      else case match_at r p prev (x # xs) of
             None \<Rightarrow> match_all r 0 (Suc p) (Some x) xs
           | Some m \<Rightarrow> (p, m) # match_all r (fst m - Suc p) (Suc p) (Some x) xs)"

subsection \<open>Replacement\<close>

definition substring :: "jsstring \<Rightarrow> nat \<Rightarrow> nat \<Rightarrow> jsstring" where
  "substring s a b = take (b - a) (drop a s)"

text \<open>The text of capture group \<open>k\<close>; a group that took no part is the empty string.\<close>

definition cap_text :: "jsstring \<Rightarrow> caps \<Rightarrow> nat \<Rightarrow> jsstring" where
  "cap_text s c k = (case map_of c k of None \<Rightarrow> [] | Some ab \<Rightarrow> substring s (fst ab) (snd ab))"

fun ngroups :: "re \<Rightarrow> nat" where
  "ngroups (Grp k r) = Suc (ngroups r)"
| "ngroups (Seq r1 r2) = ngroups r1 + ngroups r2"
| "ngroups (Star r) = ngroups r"
| "ngroups (Lazy r) = ngroups r"
| "ngroups (Opt r) = ngroups r"
| "ngroups (NotAhead r) = ngroups r"
| "ngroups r = 0"

text \<open>The texts of the groups \<open>1, \<dots>, n\<close> of a match.\<close>

definition captures :: "re \<Rightarrow> jsstring \<Rightarrow> caps \<Rightarrow> jsstring list" where
  "captures r s c = map (cap_text s c) [1..<Suc (ngroups r)]"

text \<open>
  \<open>GetSubstitution\<close> for a replacement string: \<open>$$\<close> is a dollar, \<open>$&\<close> the match
  and \<open>$k\<close> the text of group \<open>k\<close> when the pattern has that many groups; any other
  \<open>$\<close> stays. (No replacement string of the program has a digit after \<open>$k\<close> or
  uses another form.)
\<close>

fun get_substitution :: "jsstring \<Rightarrow> jsstring list \<Rightarrow> jsstring \<Rightarrow> jsstring"
  and dollar :: "jsstring \<Rightarrow> jsstring list \<Rightarrow> jsstring \<Rightarrow> jsstring" where
  "get_substitution matched cs [] = []"
| "get_substitution matched cs (x # t) =
     (if x = 36 then dollar matched cs t else x # get_substitution matched cs t)"
| "dollar matched cs [] = [36]"
| "dollar matched cs (y # t) =
     (if y = 36 then 36 # get_substitution matched cs t
      else if y = 38 then matched @ get_substitution matched cs t
      else if 49 \<le> y \<and> y \<le> 57 \<and> y - 48 \<le> length cs
      then cs ! (y - 49) @ get_substitution matched cs t
      else 36 # y # get_substitution matched cs t)"

text \<open>
  The result of \<open>replace\<close>: the text between the matches, with each match replaced.
  \<open>src\<close> is the index after the previous match.
\<close>

fun rebuild :: "jsstring \<Rightarrow> nat \<Rightarrow> ((nat \<times> nat \<times> caps) \<times> jsstring) list \<Rightarrow> jsstring" where
  "rebuild s src [] = drop src s"
| "rebuild s src (((i, e, c), rep) # ms) = substring s src i @ rep @ rebuild s e ms"

text \<open>\<open>s.replace(/r/g, 'template')\<close>: the template is expanded for each match.\<close>

fun expand :: "re \<Rightarrow> jsstring \<Rightarrow> jsstring \<Rightarrow> (nat \<times> nat \<times> caps) \<Rightarrow> (nat \<times> nat \<times> caps) \<times> jsstring" where
  "expand r tpl s (i, e, c) =
     ((i, e, c), get_substitution (substring s i e) (captures r s c) tpl)"

definition replace_str :: "re \<Rightarrow> jsstring \<Rightarrow> jsstring \<Rightarrow> jsstring" where
  "replace_str r tpl s = rebuild s 0 (map (expand r tpl s) (match_all r 0 0 None s))"

text \<open>
  \<open>s.replace(/r/g, (match, p1) => ...)\<close>: the function gets the match and the first
  group; what it returns is inserted as it is, a \<open>$1\<close> in it is not expanded.
\<close>

fun call :: "(jsstring \<Rightarrow> jsstring \<Rightarrow> jsstring) \<Rightarrow> jsstring \<Rightarrow> (nat \<times> nat \<times> caps) \<Rightarrow> (nat \<times> nat \<times> caps) \<times> jsstring" where
  "call f s (i, e, c) = ((i, e, c), f (substring s i e) (cap_text s c 1))"

definition replace_fn :: "re \<Rightarrow> (jsstring \<Rightarrow> jsstring \<Rightarrow> jsstring) \<Rightarrow> jsstring \<Rightarrow> jsstring" where
  "replace_fn r f s = rebuild s 0 (map (call f s) (match_all r 0 0 None s))"

text \<open>\<open>s.replace(/r/, 'template')\<close> without the \<open>g\<close> flag replaces the first match only.\<close>

definition replace_first :: "re \<Rightarrow> jsstring \<Rightarrow> jsstring \<Rightarrow> jsstring" where
  "replace_first r tpl s =
     (case regexp_exec r 0 None s of
        None \<Rightarrow> s
      | Some m \<Rightarrow> rebuild s 0 [expand r tpl s m])"

subsection \<open>Building patterns\<close>

definition chr :: "char \<Rightarrow> re" where
  "chr a = Cls (\<lambda>x. x = ch a)"

definition chi :: "char \<Rightarrow> re" where
  "chi a = Cls (\<lambda>x. ascii_fold x = ascii_fold (ch a))"

definition seqs :: "re list \<Rightarrow> re" where
  "seqs rs = foldr Seq rs Eps"

definition lit :: "string \<Rightarrow> re" where
  "lit cs = seqs (map chr cs)"

definition liti :: "string \<Rightarrow> re" where
  "liti cs = seqs (map chi cs)"

definition rplus :: "re \<Rightarrow> re" where
  "rplus r = Seq r (Star r)"

definition oneof :: "string \<Rightarrow> re" where
  "oneof cs = Cls (\<lambda>x. x \<in> set (js cs))"

definition noneof :: "string \<Rightarrow> re" where
  "noneof cs = Cls (\<lambda>x. x \<notin> set (js cs))"

text \<open>\<open>[\s\S]\<close>, \<open>.\<close> (without the \<open>s\<close> flag), \<open>\s\<close>, \<open>\w\<close> and \<open>\d\<close>.\<close>

definition anyc :: re where
  "anyc = Cls (\<lambda>x. True)"

definition dot :: re where
  "dot = Cls (\<lambda>x. \<not> is_line_terminator x)"

definition space :: re where
  "space = Cls is_space"

definition wordc :: re where
  "wordc = Cls is_word_char"

definition digit :: re where
  "digit = Cls is_digit"

subsection \<open>Other string methods\<close>

definition trim :: "jsstring \<Rightarrow> jsstring" where
  "trim s = rev (dropWhile is_space (rev (dropWhile is_space s)))"

text \<open>\<open>s.split('\n')\<close>; the empty string splits into one empty piece.\<close>

fun split_on :: "jschar \<Rightarrow> jsstring \<Rightarrow> jsstring list" where
  "split_on d [] = [[]]"
| "split_on d (x # xs) =
     (if x = d then [] # split_on d xs
      else case split_on d xs of
             [] \<Rightarrow> [[x]]
           | y # ys \<Rightarrow> (x # y) # ys)"

text \<open>The decimal digits of a counter, as a template literal prints it.\<close>

fun decimal :: "nat \<Rightarrow> jsstring" where
  "decimal n = (if n < 10 then [48 + n] else decimal (n div 10) @ [48 + n mod 10])"

section \<open>NotesCore\<close>

subsection \<open>validateInput\<close>

text \<open>
  \<open>validateInput(input, type = 'text')\<close>. The callers pass \<open>'title'\<close> for a title;
  any other \<open>type\<close> is a body.
\<close>

definition validateInput :: "jsval \<Rightarrow> jsstring \<Rightarrow> error + jsstring" where
  "validateInput input type =
     (if falsy input \<or> not_string input then Inl InvalidType
      else case input of
             JStr s \<Rightarrow>
               if type = js ''title'' \<and> 255 < length s then Inl TooLong
               else if type = js ''title'' \<and> length (trim s) = 0 then Inl EmptyInput
               else Inr (trim s)
           | _ \<Rightarrow> Inl InvalidType)"

subsection \<open>escapeForAppleScript\<close>

definition tell_re :: re where
  "tell_re = seqs [WordB, liti ''tell'', WordB]"

definition end_tell_re :: re where
  "end_tell_re = seqs [WordB, liti ''end'', rplus space, liti ''tell'', WordB]"

text \<open>\<open>[\x00-\x08\x0B\x0C\x0E-\x1F\x7F]\<close>\<close>

definition control_re :: re where
  "control_re = Cls (\<lambda>x. x \<le> 8 \<or> x = 11 \<or> x = 12 \<or> (14 \<le> x \<and> x \<le> 31) \<or> x = 127)"

text \<open>\<^verbatim>\<open>[\u2028\u2029]\<close>\<close>

definition separator_re :: re where
  "separator_re = Cls (\<lambda>x. x = 0x2028 \<or> x = 0x2029)"

text \<open>\<^verbatim>\<open>[\u200B-\u200F\u202A-\u202E\u2060-\u2064\u206A-\u206F\uFEFF]\<close>\<close>

definition zero_width_re :: re where
  "zero_width_re = Cls (\<lambda>x. (0x200B \<le> x \<and> x \<le> 0x200F) \<or> (0x202A \<le> x \<and> x \<le> 0x202E) \<or>
     (0x2060 \<le> x \<and> x \<le> 0x2064) \<or> (0x206A \<le> x \<and> x \<le> 0x206F) \<or> x = 0xFEFF)"

text \<open>
  The chain of replacements, before the length check. A backslash becomes two
  backslashes, a double quote becomes a backslash and the quote, every line ending
  becomes a backslash and \<open>n\<close>, a tab becomes a backslash and \<open>t\<close>.
\<close>

definition backslash :: char where
  "backslash = CHR 0x5C"

definition escape_chars :: "jsstring \<Rightarrow> jsstring" where
  \<open>escape_chars text0 =
     (let text1 = replace_str tell_re (js ''t_e_l_l'') text0;
          text2 = replace_str end_tell_re (js ''e_n_d_t_e_l_l'') text1;
          text3 = replace_str control_re [] text2;
          text4 = replace_str separator_re [] text3;
          text5 = replace_str zero_width_re [] text4;
          t1 = replace_str (chr backslash) (js [backslash, backslash]) text5;
          t2 = replace_str (chr CHR ''"'') (js [backslash, CHR ''"'']) t1;
          t3 = replace_str (Seq (chr CHR 0x0D) (chr CHR 0x0A)) (js [backslash, CHR ''n'']) t2;
          t4 = replace_str (chr CHR 0x0D) (js [backslash, CHR ''n'']) t3;
          t5 = replace_str (chr CHR 0x0A) (js [backslash, CHR ''n'']) t4;
          t6 = replace_str (chr CHR 0x09) (js [backslash, CHR ''t'']) t5;
          t7 = replace_str (Cls (\<lambda>x. x = 12 \<or> x = 11)) (js '' '') t6;
          t8 = replace_str (chr CHR ''}'') [] t7;
          t9 = replace_str (chr CHR ''{'') [] t8
      in t9)\<close>

definition maxLength :: nat where
  "maxLength = 50000"

definition escapeForAppleScript :: "jsval \<Rightarrow> error + jsstring" where
  "escapeForAppleScript text =
     (if falsy text then Inr []
      else case text of
             JStr s \<Rightarrow>
               (let t = escape_chars s
                in if maxLength < length t
                   then Inr (substring t 0 maxLength @ js ''... (truncated)'')
                   else Inr t)
           | _ \<Rightarrow> Inl TypeError)"

subsection \<open>sanitizeHTML\<close>

text \<open>\<open>/<script\b[^<]*(?:(?!<\/script>)<[^<]*)*<\/script>/gi\<close>\<close>

definition script_block_re :: re where
  "script_block_re =
     seqs [liti ''<script'', WordB, Star (noneof ''<''),
           Star (seqs [NotAhead (liti ''</script>''), chr CHR ''<'', Star (noneof ''<'')]),
           liti ''</script>'']"

text \<open>\<open>/\s*on\w+\s*=\s*["'][^"']*["']/gi\<close>\<close>

definition handler_re :: re where
  \<open>handler_re =
     seqs [Star space, liti ''on'', rplus wordc, Star space, chr CHR ''='', Star space,
           oneof [CHR ''"'', CHR 0x27], Star (noneof [CHR ''"'', CHR 0x27]),
           oneof [CHR ''"'', CHR 0x27]]\<close>

text \<open>\<open>/javascript:/gi\<close>\<close>

definition javascript_re :: re where
  "javascript_re = liti ''javascript:''"

text \<open>\<open>new RegExp(`<${tag}\\b[^>]*>(?:.*?<\\/${tag}>)?`, 'gi')\<close>\<close>

definition dangerous_re :: "string \<Rightarrow> re" where
  "dangerous_re tag =
     seqs [chr CHR ''<'', liti tag, WordB, Star (noneof ''>''), chr CHR ''>'',
           Opt (seqs [Lazy dot, liti ''</'', liti tag, chr CHR ''>''])]"

definition dangerous :: "string list" where
  "dangerous = [''script'', ''iframe'', ''object'', ''embed'', ''form'']"

text \<open>The body of the \<open>forEach\<close>: one tag of the list is removed.\<close>

definition remove_dangerous :: "string \<Rightarrow> jsstring \<Rightarrow> jsstring" where
  "remove_dangerous tag text = replace_str (dangerous_re tag) [] text"

definition sanitize_string :: "jsstring \<Rightarrow> jsstring" where
  "sanitize_string text0 =
     (let text1 = replace_str script_block_re [] text0;
          text2 = replace_str handler_re [] text1;
          text3 = replace_str javascript_re [] text2
      in fold remove_dangerous dangerous text3)"

text \<open>There is no guard: \<open>text.replace\<close> on a value that is not a string throws.\<close>

definition sanitizeHTML :: "jsval \<Rightarrow> error + jsstring" where
  "sanitizeHTML text = (case text of JStr s \<Rightarrow> Inr (sanitize_string s) | _ \<Rightarrow> Inl TypeError)"

subsection \<open>convertToHTML\<close>

definition code_block_re :: re where
  "code_block_re = seqs [lit ''```'', Grp 1 (Lazy anyc), lit ''```'']"

definition inline_code_re :: re where
  "inline_code_re = seqs [chr CHR ''`'', Grp 1 (rplus (noneof ''`'')), chr CHR ''`'']"

text \<open>\<open>/^### (.+)$/gm\<close>, \<open>/^## (.+)$/gm\<close>, \<open>/^# (.+)$/gm\<close>\<close>

definition heading_re :: "string \<Rightarrow> re" where
  "heading_re marks = seqs [Bol, lit marks, chr CHR '' '', Grp 1 (rplus dot), Eol]"

text \<open>\<open>/((?:^[\*\-] .+$\n?)+)/gm\<close>\<close>

definition bullets_re :: re where
  "bullets_re =
     Grp 1 (rplus (seqs [Bol, oneof ''*-'', chr CHR '' '', rplus dot, Eol, Opt (chr CHR 0x0A)]))"

text \<open>\<open>/((?:^\d+\. .+$\n?)+)/gm\<close>\<close>

definition numbered_re :: re where
  "numbered_re =
     Grp 1 (rplus (seqs [Bol, rplus digit, chr CHR ''.'', chr CHR '' '', rplus dot, Eol,
                        Opt (chr CHR 0x0A)]))"

definition bold_re :: re where
  "bold_re = seqs [lit ''**'', Grp 1 (rplus (noneof ''*'')), lit ''**'']"

definition italic_re :: re where
  "italic_re = seqs [chr CHR ''*'', Grp 1 (rplus (noneof ''*'')), chr CHR ''*'']"

text \<open>\<open>/^---+$/gm\<close>\<close>

definition rule_re :: re where
  "rule_re = seqs [Bol, lit ''--'', rplus (chr CHR ''-''), Eol]"

text \<open>
  The replacers of the two list rules: the run of lines is trimmed and split at the
  newlines, the marker is removed from each line (a pattern without the \<open>g\<close> flag),
  and the items are joined.
\<close>

definition list_item :: "re \<Rightarrow> jsstring \<Rightarrow> jsstring" where
  \<open>list_item marker item =
     js ''<li style="margin-bottom:8px">'' @ replace_first marker [] item @ js ''</li>''\<close>

definition list_items :: "re \<Rightarrow> jsstring \<Rightarrow> jsstring" where
  "list_items marker match = concat (map (list_item marker) (split_on 10 (trim match)))"

definition bullet_list :: "jsstring \<Rightarrow> jsstring \<Rightarrow> jsstring" where
  \<open>bullet_list match p1 =
     js ''<ul style="margin:16px 0;padding-left:24px">''
     @ list_items (seqs [Bos, oneof ''*-'', chr CHR '' '']) match @ js ''</ul>''\<close>

definition numbered_list :: "jsstring \<Rightarrow> jsstring \<Rightarrow> jsstring" where
  \<open>numbered_list match p1 =
     js ''<ol style="margin:16px 0;padding-left:24px">''
     @ list_items (seqs [Bos, rplus digit, lit ''. '']) match @ js ''</ol>''\<close>

definition markdown_rules :: "jsstring \<Rightarrow> jsstring" where
  \<open>markdown_rules text =
     (let h1 = replace_str code_block_re
                 (js ''<blockquote style="background:#f5f5f5;padding:12px;border-left:4px solid #ddd;font-family:monospace;white-space:pre-wrap">$1</blockquote>'') text;
          h2 = replace_str inline_code_re
                 (js ''<code style="background:#f0f0f0;padding:2px 6px;border-radius:3px;font-family:monospace">$1</code>'') h1;
          h3 = replace_str (heading_re ''###'')
                 (js ''<h3 style="font-size:20px;margin:20px 0 16px">$1</h3>'') h2;
          h4 = replace_str (heading_re ''##'')
                 (js ''<h2 style="font-size:24px;margin:24px 0 16px">$1</h2>'') h3;
          h5 = replace_str (heading_re ''#'')
                 (js ''<h1 style="font-size:28px;margin:28px 0 20px">$1</h1>'') h4;
          h6 = replace_fn bullets_re bullet_list h5;
          h7 = replace_fn numbered_re numbered_list h6;
          h8 = replace_str bold_re (js ''<strong>$1</strong>'') h7;
          h9 = replace_str italic_re (js ''<em>$1</em>'') h8;
          h10 = replace_str rule_re
                 (js ''<hr style="border:none;border-top:1px solid #ddd;margin:24px 0">'') h9;
          h11 = replace_str (Seq (chr CHR 0x0A) (rplus (chr CHR 0x0A)))
                 (js ''</p><p style="margin:12px 0">'') h10;
          h12 = replace_str (chr CHR 0x0A) (js ''<br>'') h11
      in js ''<div style="font-size:16px;line-height:1.6;font-family:-apple-system,sans-serif"><p style="margin:12px 0">''
         @ h12 @ js ''</p></div>'')\<close>

definition convertToHTML :: "jsval \<Rightarrow> error + jsstring" where
  "convertToHTML text =
     (case sanitizeHTML text of
        Inl err \<Rightarrow> Inl err
      | Inr t \<Rightarrow> Inr (markdown_rules t))"

subsection \<open>convertHTMLToMarkdown\<close>

text \<open>\<open>/<tag[^>]*>([\s\S]*?)<\/tag>/gi\<close>\<close>

definition element_re :: "string \<Rightarrow> re" where
  "element_re tag =
     seqs [chr CHR ''<'', liti tag, Star (noneof ''>''), chr CHR ''>'', Grp 1 (Lazy anyc),
           liti ''</'', liti tag, chr CHR ''>'']"

text \<open>\<open>/<!--[\s\S]*?-->/g\<close>\<close>

definition comment_re :: re where
  "comment_re = seqs [lit ''<!--'', Lazy anyc, lit ''-->'']"

text \<open>\<open>/<blockquote[^>]*font-family:\s*monospace[^>]*>([\s\S]*?)<\/blockquote>/gi\<close>\<close>

definition code_quote_re :: re where
  "code_quote_re =
     seqs [liti ''<blockquote'', Star (noneof ''>''), liti ''font-family:'', Star space,
           liti ''monospace'', Star (noneof ''>''), chr CHR ''>'', Grp 1 (Lazy anyc),
           liti ''</blockquote>'']"

text \<open>\<open>/<hr[^>]*>/gi\<close> and \<open>/<br\s*\/?>/gi\<close>\<close>

definition hr_re :: re where
  "hr_re = seqs [liti ''<hr'', Star (noneof ''>''), chr CHR ''>'']"

definition br_re :: re where
  "br_re = seqs [liti ''<br'', Star space, Opt (chr CHR ''/''), chr CHR ''>'']"

text \<open>\<open>/<a[^>]*href="([^"]*)"[^>]*>([\s\S]*?)<\/a>/gi\<close>\<close>

definition link_re :: re where
  \<open>link_re =
     seqs [liti ''<a'', Star (noneof ''>''), liti ''href="'', Grp 1 (Star (noneof ''"'')),
           chr CHR ''"'', Star (noneof ''>''), chr CHR ''>'', Grp 2 (Lazy anyc), liti ''</a>'']\<close>

text \<open>\<open>/<[^>]+>/g\<close> and \<open>/\n{3,}/g\<close>\<close>

definition any_tag_re :: re where
  "any_tag_re = seqs [chr CHR ''<'', rplus (noneof ''>''), chr CHR ''>'']"

definition newlines3_re :: re where
  "newlines3_re = seqs [chr CHR 0x0A, chr CHR 0x0A, chr CHR 0x0A, Star (chr CHR 0x0A)]"

text \<open>
  The replacer of the list items of an ordered list is the function
  \<open>() => { listCounter++; return `${listCounter}. $1\n`; }\<close>: the counter is the state
  that goes from one call to the next, and the string it returns is inserted as it is.
\<close>

fun number_items ::
  "nat \<Rightarrow> (nat \<times> nat \<times> caps) list \<Rightarrow> ((nat \<times> nat \<times> caps) \<times> jsstring) list" where
  "number_items listCounter [] = []"
| "number_items listCounter (m # ms) =
     (m, decimal (Suc listCounter) @ js ''. $1\<newline>'') # number_items (Suc listCounter) ms"

definition ordered_list :: "jsstring \<Rightarrow> jsstring \<Rightarrow> jsstring" where
  "ordered_list match content =
     rebuild content 0 (number_items 0 (match_all (element_re ''li'') 0 0 None content)) @ js ''\<newline>''"

definition unordered_list :: "jsstring \<Rightarrow> jsstring \<Rightarrow> jsstring" where
  "unordered_list match content =
     replace_str (element_re ''li'') (js ''- $1\<newline>'') content @ js ''\<newline>''"

definition html_rules :: "jsstring \<Rightarrow> jsstring" where
  \<open>html_rules html =
     (let m1 = replace_str comment_re [] html;
          m2 = replace_str (element_re ''h1'') (js ''# $1\<newline>\<newline>'') m1;
          m3 = replace_str (element_re ''h2'') (js ''## $1\<newline>\<newline>'') m2;
          m4 = replace_str (element_re ''h3'') (js ''### $1\<newline>\<newline>'') m3;
          m5 = replace_str (element_re ''h4'') (js ''#### $1\<newline>\<newline>'') m4;
          m6 = replace_str (element_re ''h5'') (js ''##### $1\<newline>\<newline>'') m5;
          m7 = replace_str (element_re ''h6'') (js ''###### $1\<newline>\<newline>'') m6;
          m8 = replace_str (element_re ''strong'') (js ''**$1**'') m7;
          m9 = replace_str (element_re ''b'') (js ''**$1**'') m8;
          m10 = replace_str (element_re ''em'') (js ''*$1*'') m9;
          m11 = replace_str (element_re ''i'') (js ''*$1*'') m10;
          m12 = replace_str code_quote_re (js ''```\<newline>$1\<newline>```\<newline>'') m11;
          m13 = replace_str (element_re ''code'') (js ''`$1`'') m12;
          m14 = replace_fn (element_re ''ul'') unordered_list m13;
          m15 = replace_fn (element_re ''ol'') ordered_list m14;
          m16 = replace_str hr_re (js ''\<newline>---\<newline>\<newline>'') m15;
          m17 = replace_str br_re (js ''\<newline>'') m16;
          m18 = replace_str (element_re ''p'') (js ''$1\<newline>\<newline>'') m17;
          m19 = replace_str (element_re ''div'') (js ''$1\<newline>'') m18;
          m20 = replace_str link_re (js ''[$2]($1)'') m19;
          m21 = replace_str any_tag_re [] m20;
          m22 = replace_str (lit ''&nbsp;'') (js '' '') m21;
          m23 = replace_str (lit ''&amp;'') (js ''&'') m22;
          m24 = replace_str (lit ''&lt;'') (js ''<'') m23;
          m25 = replace_str (lit ''&gt;'') (js ''>'') m24;
          m26 = replace_str (lit ''&quot;'') (js ''"'') m25;
          m27 = replace_str (lit ''&#39;'') (js [CHR 0x27]) m26;
          m28 = replace_str newlines3_re (js ''\<newline>\<newline>'') m27
      in trim m28)\<close>

definition convertHTMLToMarkdown :: "jsval \<Rightarrow> error + jsstring" where
  "convertHTMLToMarkdown html =
     (if falsy html then Inr []
      else case html of
             JStr s \<Rightarrow> Inr (html_rules s)
           | _ \<Rightarrow> Inl TypeError)"

section \<open>The markdown scenario\<close>

text \<open>The scenario body and what \<open>convertToHTML\<close> makes of it.\<close>

definition scenario_body :: jsstring where
  "scenario_body =
     js ''# Heading\<newline>\<newline>**Bold** and *italic* text.\<newline>\<newline>- Item 1\<newline>- Item 2''"

definition scenario_html :: jsstring where
  \<open>scenario_html =
     js ''<div style="font-size:16px;line-height:1.6;font-family:-apple-system,sans-serif">''
     @ js ''<p style="margin:12px 0"><h1 style="font-size:28px;margin:28px 0 20px">Heading</h1></p>''
     @ js ''<p style="margin:12px 0"><strong>Bold</strong> and <em>italic</em> text.</p>''
     @ js ''<p style="margin:12px 0"><ul style="margin:16px 0;padding-left:24px">''
     @ js ''<li style="margin-bottom:8px">Item 1</li><li style="margin-bottom:8px">Item 2</li>''
     @ js ''</ul></p></div>''\<close>

section \<open>Auxiliary notions for the proofs\<close>

text \<open>
  \<open>nullable r\<close> holds when \<open>r\<close> may match without consuming a code unit (every
  assertion counts as such), and \<open>first r x\<close> when a match of \<open>r\<close> that consumes
  something may begin with \<open>x\<close>. Both are read off the pattern. Where neither holds
  the pattern cannot match.
\<close>

fun nullable :: "re \<Rightarrow> bool" where
  "nullable (Cls P) = False"
| "nullable (Seq r1 r2) = (if nullable r1 then nullable r2 else False)"
| "nullable (Grp k r) = nullable r"
| "nullable r = True"

fun first :: "re \<Rightarrow> jschar \<Rightarrow> bool" where
  "first (Cls P) x = P x"
| "first (Seq r1 r2) x = (if first r1 x then True else if nullable r1 then first r2 x else False)"
| "first (Star r) x = first r x"
| "first (Lazy r) x = first r x"
| "first (Opt r) x = first r x"
| "first (Grp k r) x = first r x"
| "first r x = False"

definition may_start :: "re \<Rightarrow> jschar \<Rightarrow> bool" where
  "may_start r x = (if nullable r then True else first r x)"

fun blocked :: "re \<Rightarrow> jsstring \<Rightarrow> bool" where
  "blocked r [] = True"
| "blocked r (x # xs) = (\<not> first r x)"

text \<open>The matches of a list lie one after the other, from \<open>src\<close> on.\<close>

fun in_order :: "nat \<Rightarrow> (nat \<times> nat \<times> caps) list \<Rightarrow> bool" where
  "in_order src [] = True"
| "in_order src ((i, e, c) # ms) = (src \<le> i \<and> i \<le> e \<and> in_order e ms)"

text \<open>
  \<open>in_sequence ws s\<close>: the strings of \<open>ws\<close> occur in \<open>s\<close> one after the other, each
  after the end of the one before; \<open>after_first w s\<close> is what follows the first
  occurrence of \<open>w\<close> in \<open>s\<close>.
\<close>

fun after_first :: "jsstring \<Rightarrow> jsstring \<Rightarrow> jsstring option" where
  "after_first w [] = (if w = [] then Some [] else None)"
| "after_first w (x # xs) =
     (if take (length w) (x # xs) = w then Some (drop (length w) (x # xs))
      else after_first w xs)"

fun in_sequence :: "jsstring list \<Rightarrow> jsstring \<Rightarrow> bool" where
  "in_sequence [] s = True"
| "in_sequence (w # ws) s =
     (case after_first w s of None \<Rightarrow> False | Some rest \<Rightarrow> in_sequence ws rest)"

section \<open>Properties of the matcher\<close>

declare rmatch.simps [simp del] iterate.simps [simp del] progress.simps [simp del]
  match_all.simps [simp del] regexp_exec.simps [simp del]

lemma progress_mem: "m \<in> set (progress p ms) \<Longrightarrow> m \<in> set ms \<and> p < fst m"
  by (induction p ms rule: progress.induct) (auto simp: progress.simps split: if_splits)

lemma progress_none: "\<forall>m\<in>set ms. fst m \<le> p \<Longrightarrow> progress p ms = []"
  by (induction p ms rule: progress.induct) (simp_all add: progress.simps)

text \<open>A match never ends before its start.\<close>

lemma rmatch_iterate_mono:
  "m \<in> set (rmatch r st) \<Longrightarrow> fst st \<le> fst m"
  "m \<in> set (iterate greedy r left st) \<Longrightarrow> fst st \<le> fst m"
proof (induction r st and greedy r left st arbitrary: m and m rule: rmatch_iterate.induct)
  case (1 P p prev rest c)
  then show ?case by (auto simp: rmatch.simps split: list.splits if_splits)
next
  case (2 st)
  then show ?case by (simp add: rmatch.simps)
next
  case (3 r1 r2 st)
  from "3.prems" obtain m1 where m1: "m1 \<in> set (rmatch r1 st)" and m: "m \<in> set (rmatch r2 m1)"
    by (auto simp: rmatch.simps)
  from m1 have "fst st \<le> fst m1" by (rule "3.IH"(1))
  moreover from m1 m have "fst m1 \<le> fst m" by (rule "3.IH"(2))
  ultimately show ?case by simp
next
  case (4 r p prev rest c)
  then show ?case by (simp add: rmatch.simps)
next
  case (5 r p prev rest c)
  then show ?case by (simp add: rmatch.simps)
next
  case (6 r st)
  from "6.prems" have "m \<in> set (rmatch r st) \<or> m = st" by (auto simp: rmatch.simps)
  then show ?case using "6.IH" by blast
next
  case (7 r st)
  then show ?case by (auto simp: rmatch.simps split: if_splits)
next
  case (8 p prev rest c)
  then show ?case by (auto simp: rmatch.simps split: if_splits)
next
  case (9 p prev rest c)
  then show ?case by (auto simp: rmatch.simps split: if_splits)
next
  case (10 p prev rest c)
  then show ?case by (auto simp: rmatch.simps split: if_splits)
next
  case (11 p prev rest c)
  then show ?case by (auto simp: rmatch.simps split: if_splits)
next
  case (12 k r p prev rest c)
  from "12.prems" obtain m0 where m0: "m0 \<in> set (rmatch r (p, prev, rest, c))"
    and m: "m = add_cap k p m0" by (auto simp: rmatch.simps)
  from m0 have "p \<le> fst m0" using "12.IH" by fastforce
  with m show ?case by (cases m0) simp
next
  case (13 greedy r st)
  then show ?case by (simp add: iterate.simps)
next
  case (14 greedy r x left st)
  show ?case
  proof (cases "m = st")
    case True
    then show ?thesis by simp
  next
    case False
    with "14.prems" obtain m1 where m1: "m1 \<in> set (progress (fst st) (rmatch r st))"
      and m: "m \<in> set (iterate greedy r left m1)"
      by (auto simp: iterate.simps split: if_splits)
    from m1 have "fst st < fst m1" using progress_mem by blast
    moreover from m1 m have "fst m1 \<le> fst m" using "14.IH" by (cases greedy) blast+
    ultimately show ?thesis by simp
  qed
qed

lemma match_at_mono: "match_at r p prev rest = Some (e, c) \<Longrightarrow> p \<le> e"
proof -
  assume a: "match_at r p prev rest = Some (e, c)"
  then obtain m ms where ms: "rmatch r (p, prev, rest, []) = m # ms"
    by (cases "rmatch r (p, prev, rest, [])") (auto simp: match_at_def)
  with a have "fst m = e" by (cases m) (simp add: match_at_def)
  moreover from ms have "m \<in> set (rmatch r (p, prev, rest, []))" by simp
  then have "p \<le> fst m" using rmatch_iterate_mono(1) by fastforce
  ultimately show ?thesis by simp
qed

text \<open>
  Where the next code unit cannot begin a match, the pattern consumes nothing, and it
  fails unless it may match the empty string.
\<close>

lemma iterate_stuck:
  assumes "\<forall>m\<in>set (rmatch r st). fst m \<le> fst st"
  shows "iterate greedy r left st = [st]"
proof (cases left)
  case Nil
  then show ?thesis by (simp add: iterate.simps)
next
  case (Cons x xs)
  from assms have "progress (fst st) (rmatch r st) = []" by (rule progress_none)
  with Cons show ?thesis by (simp add: iterate.simps)
qed

lemma rmatch_blocked:
  "blocked r rest \<Longrightarrow>
   (\<forall>m\<in>set (rmatch r (p, prev, rest, c)). \<exists>c'. m = (p, prev, rest, c')) \<and>
   (\<not> nullable r \<longrightarrow> rmatch r (p, prev, rest, c) = [])"
proof (induction r arbitrary: p prev c)
  case (Cls P)
  then show ?case by (cases rest) (auto simp: rmatch.simps)
next
  case Eps
  then show ?case by (simp add: rmatch.simps)
next
  case (Seq r1 r2)
  from Seq.prems have b1: "blocked r1 rest" by (cases rest) (auto split: if_splits)
  note h1 = Seq.IH(1)[OF b1]
  show ?case
  proof (cases "nullable r1")
    case False
    with h1 have "rmatch r1 (p, prev, rest, c) = []" by blast
    with False show ?thesis by (simp add: rmatch.simps)
  next
    case True
    with Seq.prems have b2: "blocked r2 rest" by (cases rest) (auto split: if_splits)
    note h2 = Seq.IH(2)[OF b2]
    have stay: "\<forall>m\<in>set (rmatch (Seq r1 r2) (p, prev, rest, c)). \<exists>c'. m = (p, prev, rest, c')"
    proof
      fix m assume "m \<in> set (rmatch (Seq r1 r2) (p, prev, rest, c))"
      then obtain m1 where m1: "m1 \<in> set (rmatch r1 (p, prev, rest, c))"
        and m: "m \<in> set (rmatch r2 m1)" by (auto simp: rmatch.simps)
      from m1 h1 obtain c1 where "m1 = (p, prev, rest, c1)" by blast
      with m h2 show "\<exists>c'. m = (p, prev, rest, c')" by blast
    qed
    have "rmatch (Seq r1 r2) (p, prev, rest, c) = []" if "\<not> nullable r2"
    proof -
      have "rmatch r2 m1 = []" if "m1 \<in> set (rmatch r1 (p, prev, rest, c))" for m1
      proof -
        from that h1 obtain c1 where "m1 = (p, prev, rest, c1)" by blast
        with h2 \<open>\<not> nullable r2\<close> show ?thesis by blast
      qed
      then show ?thesis by (simp add: rmatch.simps)
    qed
    with stay True show ?thesis by auto
  qed
next
  case (Star r)
  from Star.prems have "blocked r rest" by (cases rest) auto
  from Star.IH[OF this] have "\<forall>m\<in>set (rmatch r (p, prev, rest, c)). fst m \<le> fst (p, prev, rest, c)"
    by fastforce
  then have "iterate True r rest (p, prev, rest, c) = [(p, prev, rest, c)]" by (rule iterate_stuck)
  then show ?case by (simp add: rmatch.simps)
next
  case (Lazy r)
  from Lazy.prems have "blocked r rest" by (cases rest) auto
  from Lazy.IH[OF this] have "\<forall>m\<in>set (rmatch r (p, prev, rest, c)). fst m \<le> fst (p, prev, rest, c)"
    by fastforce
  then have "iterate False r rest (p, prev, rest, c) = [(p, prev, rest, c)]" by (rule iterate_stuck)
  then show ?case by (simp add: rmatch.simps)
next
  case (Opt r)
  from Opt.prems have "blocked r rest" by (cases rest) auto
  from Opt.IH[OF this] show ?case by (auto simp: rmatch.simps)
next
  case (NotAhead r)
  then show ?case by (simp add: rmatch.simps)
next
  case WordB
  then show ?case by (simp add: rmatch.simps)
next
  case Bol
  then show ?case by (simp add: rmatch.simps)
next
  case Eol
  then show ?case by (simp add: rmatch.simps)
next
  case Bos
  then show ?case by (simp add: rmatch.simps)
next
  case (Grp k r)
  from Grp.prems have "blocked r rest" by (cases rest) auto
  from Grp.IH[OF this] show ?case by (fastforce simp: rmatch.simps)
qed

lemma match_at_blocked: "\<not> may_start r x \<Longrightarrow> match_at r p prev (x # xs) = None"
proof -
  assume "\<not> may_start r x"
  then have "blocked r (x # xs)" and "\<not> nullable r"
    by (auto simp: may_start_def split: if_splits)
  then have "rmatch r (p, prev, x # xs, []) = []" using rmatch_blocked by blast
  then show ?thesis by (simp add: match_at_def)
qed

lemma match_at_end: "\<not> nullable r \<Longrightarrow> match_at r p prev [] = None"
proof -
  assume "\<not> nullable r"
  moreover have "blocked r []" by simp
  ultimately have "rmatch r (p, prev, [], []) = []" using rmatch_blocked by blast
  then show ?thesis by (simp add: match_at_def)
qed

subsection \<open>Rules to run the matcher on a given input\<close>

lemma rmatch_Cls_end: "rmatch (Cls P) (p, prev, [], c) = []"
  by (simp add: rmatch.simps)

lemma rmatch_Cls_hit: "P x \<Longrightarrow> rmatch (Cls P) (p, prev, x # xs, c) = [(Suc p, Some x, xs, c)]"
  by (simp add: rmatch.simps)

lemma rmatch_Cls_miss: "\<not> P x \<Longrightarrow> rmatch (Cls P) (p, prev, x # xs, c) = []"
  by (simp add: rmatch.simps)

lemma rmatch_NotAhead_pass: "rmatch r st = [] \<Longrightarrow> rmatch (NotAhead r) st = [st]"
  by (simp add: rmatch.simps)

lemma rmatch_NotAhead_fail: "rmatch r st \<noteq> [] \<Longrightarrow> rmatch (NotAhead r) st = []"
  by (simp add: rmatch.simps)

lemma rmatch_WordB_pass:
  "word_before prev \<noteq> is_word_char x \<Longrightarrow>
   rmatch WordB (p, prev, x # xs, c) = [(p, prev, x # xs, c)]"
  by (simp add: rmatch.simps word_after_def)

lemma rmatch_WordB_fail:
  "word_before prev = is_word_char x \<Longrightarrow> rmatch WordB (p, prev, x # xs, c) = []"
  by (simp add: rmatch.simps word_after_def)

lemma rmatch_WordB_end_pass:
  "word_before prev \<Longrightarrow> rmatch WordB (p, prev, [], c) = [(p, prev, [], c)]"
  by (simp add: rmatch.simps word_after_def)

lemma rmatch_WordB_end_fail: "\<not> word_before prev \<Longrightarrow> rmatch WordB (p, prev, [], c) = []"
  by (simp add: rmatch.simps word_after_def)

lemma rmatch_Bol_pass: "at_line_start prev \<Longrightarrow> rmatch Bol (p, prev, rest, c) = [(p, prev, rest, c)]"
  by (simp add: rmatch.simps)

lemma rmatch_Bol_fail: "\<not> at_line_start prev \<Longrightarrow> rmatch Bol (p, prev, rest, c) = []"
  by (simp add: rmatch.simps)

lemma rmatch_Eol_end: "rmatch Eol (p, prev, [], c) = [(p, prev, [], c)]"
  by (simp add: rmatch.simps at_line_end_def)

lemma rmatch_Eol_pass:
  "is_line_terminator x \<Longrightarrow> rmatch Eol (p, prev, x # xs, c) = [(p, prev, x # xs, c)]"
  by (simp add: rmatch.simps at_line_end_def)

lemma rmatch_Eol_fail: "\<not> is_line_terminator x \<Longrightarrow> rmatch Eol (p, prev, x # xs, c) = []"
  by (simp add: rmatch.simps at_line_end_def)

lemma rmatch_Bos_pass: "rmatch Bos (p, None, rest, c) = [(p, None, rest, c)]"
  by (simp add: rmatch.simps)

lemma rmatch_Bos_fail: "rmatch Bos (p, Some x, rest, c) = []"
  by (simp add: rmatch.simps)

lemma iterate_greedy:
  "iterate True r (x # left) (p, prev, rest, c) =
   concat (map (iterate True r left) (progress p (rmatch r (p, prev, rest, c)))) @ [(p, prev, rest, c)]"
  by (simp add: iterate.simps)

lemma iterate_lazy:
  "iterate False r (x # left) (p, prev, rest, c) =
   (p, prev, rest, c) # concat (map (iterate False r left) (progress p (rmatch r (p, prev, rest, c))))"
  by (simp add: iterate.simps)

lemma progress_keep:
  "p < e \<Longrightarrow> progress p ((e, prev, rest, c) # ms) = (e, prev, rest, c) # progress p ms"
  by (simp add: progress.simps)

lemma progress_drop: "\<not> p < e \<Longrightarrow> progress p ((e, prev, rest, c) # ms) = progress p ms"
  by (simp add: progress.simps)

lemma match_all_skip:
  "0 < skip \<Longrightarrow> match_all r skip p prev (x # xs) = match_all r (skip - 1) (Suc p) (Some x) xs"
  by (simp add: match_all.simps)

lemma match_all_pass:
  "\<not> may_start r x \<Longrightarrow> match_all r 0 p prev (x # xs) = match_all r 0 (Suc p) (Some x) xs"
  by (simp add: match_all.simps match_at_blocked)

lemma match_all_try:
  "may_start r x \<Longrightarrow>
   match_all r 0 p prev (x # xs) =
     (case match_at r p prev (x # xs) of
        None \<Rightarrow> match_all r 0 (Suc p) (Some x) xs
      | Some m \<Rightarrow> (p, m) # match_all r (fst m - Suc p) (Suc p) (Some x) xs)"
  by (simp add: match_all.simps)

lemmas run_matcher =
  rmatch_Cls_end rmatch_Cls_hit rmatch_Cls_miss rmatch.simps(2,3,4,5,6,12)
  rmatch_NotAhead_pass rmatch_NotAhead_fail
  rmatch_WordB_pass rmatch_WordB_fail rmatch_WordB_end_pass rmatch_WordB_end_fail
  rmatch_Bol_pass rmatch_Bol_fail rmatch_Eol_end rmatch_Eol_pass rmatch_Eol_fail
  rmatch_Bos_pass rmatch_Bos_fail iterate.simps(1) iterate_greedy iterate_lazy
  progress.simps(1) progress_keep progress_drop match_at_def
  match_all.simps(1) match_all_skip match_all_pass match_all_try regexp_exec.simps
  may_start_def word_before_def at_line_start_def
  is_word_char_def is_digit_def is_line_terminator_def is_space_def ascii_fold_def

lemmas run_replace =
  replace_str_def replace_fn_def replace_first_def substring_def cap_text_def captures_def
  trim_def

lemmas patterns =
  chr_def chi_def seqs_def lit_def liti_def rplus_def oneof_def noneof_def anyc_def dot_def
  space_def wordc_def digit_def

subsection \<open>The star is the unbounded one\<close>

text \<open>
  A state reached by the matcher lies further on in the same input: its index has
  grown by the number of code units that were consumed.
\<close>

lemma rmatch_iterate_consumes:
  "m \<in> set (rmatch r st) \<Longrightarrow>
     \<exists>k\<le>length (fst (snd (snd st))).
       fst m = fst st + k \<and> fst (snd (snd m)) = drop k (fst (snd (snd st)))"
  "m \<in> set (iterate greedy r left st) \<Longrightarrow>
     \<exists>k\<le>length (fst (snd (snd st))).
       fst m = fst st + k \<and> fst (snd (snd m)) = drop k (fst (snd (snd st)))"
proof (induction r st and greedy r left st arbitrary: m and m rule: rmatch_iterate.induct)
  case (1 P p prev rest c)
  show ?case
  proof (cases rest)
    case Nil
    with "1.prems" show ?thesis by (simp add: rmatch.simps)
  next
    case (Cons x xs)
    with "1.prems" have "m = (Suc p, Some x, xs, c)"
      by (auto simp: rmatch.simps split: if_splits)
    with Cons show ?thesis by (intro exI [of _ 1]) simp
  qed
next
  case (2 st)
  then show ?case by (intro exI [of _ 0]) (simp add: rmatch.simps)
next
  case (3 r1 r2 st)
  from "3.prems" obtain m1 where m1: "m1 \<in> set (rmatch r1 st)" and m: "m \<in> set (rmatch r2 m1)"
    by (auto simp: rmatch.simps)
  from "3.IH"(1) [OF m1] obtain k1 where k1: "k1 \<le> length (fst (snd (snd st)))"
    "fst m1 = fst st + k1" "fst (snd (snd m1)) = drop k1 (fst (snd (snd st)))" by blast
  from "3.IH"(2) [OF m1 m] obtain k2 where k2: "k2 \<le> length (fst (snd (snd m1)))"
    "fst m = fst m1 + k2" "fst (snd (snd m)) = drop k2 (fst (snd (snd m1)))" by blast
  from k1 k2 show ?case by (intro exI [of _ "k1 + k2"]) (simp add: add.commute)
next
  case (4 r p prev rest c)
  from "4.prems" have "m \<in> set (iterate True r rest (p, prev, rest, c))"
    by (simp add: rmatch.simps)
  then show ?case by (rule "4.IH")
next
  case (5 r p prev rest c)
  from "5.prems" have "m \<in> set (iterate False r rest (p, prev, rest, c))"
    by (simp add: rmatch.simps)
  then show ?case by (rule "5.IH")
next
  case (6 r st)
  from "6.prems" have "m \<in> set (rmatch r st) \<or> m = st" by (auto simp: rmatch.simps)
  then show ?case
  proof
    assume "m \<in> set (rmatch r st)"
    then show ?thesis by (rule "6.IH")
  next
    assume "m = st"
    then show ?thesis by (intro exI [of _ 0]) simp
  qed
next
  case (7 r st)
  from "7.prems" have "m = st" by (auto simp: rmatch.simps split: if_splits)
  then show ?case by (intro exI [of _ 0]) simp
next
  case (8 p prev rest c)
  from "8.prems" have "m = (p, prev, rest, c)" by (auto simp: rmatch.simps split: if_splits)
  then show ?case by (intro exI [of _ 0]) simp
next
  case (9 p prev rest c)
  from "9.prems" have "m = (p, prev, rest, c)" by (auto simp: rmatch.simps split: if_splits)
  then show ?case by (intro exI [of _ 0]) simp
next
  case (10 p prev rest c)
  from "10.prems" have "m = (p, prev, rest, c)" by (auto simp: rmatch.simps split: if_splits)
  then show ?case by (intro exI [of _ 0]) simp
next
  case (11 p prev rest c)
  from "11.prems" have "m = (p, prev, rest, c)" by (auto simp: rmatch.simps split: if_splits)
  then show ?case by (intro exI [of _ 0]) simp
next
  case (12 k r p prev rest c)
  from "12.prems" obtain m0 where m0: "m0 \<in> set (rmatch r (p, prev, rest, c))"
    and m: "m = add_cap k p m0" by (auto simp: rmatch.simps)
  from "12.IH" [OF m0] obtain j where "j \<le> length rest" "fst m0 = p + j"
    "fst (snd (snd m0)) = drop j rest" by auto
  with m show ?case by (cases m0) (intro exI [of _ j], simp)
next
  case (13 greedy r st)
  then show ?case by (intro exI [of _ 0]) (simp add: iterate.simps)
next
  case (14 greedy r x left st)
  show ?case
  proof (cases "m = st")
    case True
    then show ?thesis by (intro exI [of _ 0]) simp
  next
    case False
    with "14.prems" obtain m1 where m1: "m1 \<in> set (progress (fst st) (rmatch r st))"
      and m: "m \<in> set (iterate greedy r left m1)"
      by (auto simp: iterate.simps split: if_splits)
    from m1 have m1': "m1 \<in> set (rmatch r st)" using progress_mem by blast
    from m1' have "\<exists>k\<le>length (fst (snd (snd st))).
       fst m1 = fst st + k \<and> fst (snd (snd m1)) = drop k (fst (snd (snd st)))"
      using "14.IH" by (cases greedy) blast+
    then obtain k1 where k1: "k1 \<le> length (fst (snd (snd st)))"
      "fst m1 = fst st + k1" "fst (snd (snd m1)) = drop k1 (fst (snd (snd st)))" by blast
    from m1 m have "\<exists>k\<le>length (fst (snd (snd m1))).
       fst m = fst m1 + k \<and> fst (snd (snd m)) = drop k (fst (snd (snd m1)))"
      using "14.IH" by (cases greedy) blast+
    then obtain k2 where k2: "k2 \<le> length (fst (snd (snd m1)))"
      "fst m = fst m1 + k2" "fst (snd (snd m)) = drop k2 (fst (snd (snd m1)))" by blast
    from k1 k2 show ?thesis by (intro exI [of _ "k1 + k2"]) (simp add: add.commute)
  qed
qed

text \<open>
  The count of \<open>iterate\<close> is never used up: with any count that is at least the
  length of the input that is left, the result is the same.
\<close>

lemma iterate_count:
  "length (fst (snd (snd st))) \<le> length left1 \<Longrightarrow>
   length (fst (snd (snd st))) \<le> length left2 \<Longrightarrow>
   iterate greedy r left1 st = iterate greedy r left2 st"
proof (induction left1 arbitrary: left2 st)
  case Nil
  then have "fst (snd (snd st)) = []" by simp
  then have "\<forall>m\<in>set (rmatch r st). fst m \<le> fst st"
    using rmatch_iterate_consumes(1) by fastforce
  then show ?case by (simp add: iterate_stuck)
next
  case (Cons x left1)
  show ?case
  proof (cases left2)
    case Nil
    with Cons.prems have "fst (snd (snd st)) = []" by simp
    then have "\<forall>m\<in>set (rmatch r st). fst m \<le> fst st"
      using rmatch_iterate_consumes(1) by fastforce
    then show ?thesis by (simp add: iterate_stuck)
  next
    case (Cons y left2')
    have same: "iterate greedy r left1 m = iterate greedy r left2' m"
      if "m \<in> set (progress (fst st) (rmatch r st))" for m
    proof -
      from that have m: "m \<in> set (rmatch r st)" and adv: "fst st < fst m"
        using progress_mem by blast+
      from rmatch_iterate_consumes(1) [OF m] obtain k where k: "k \<le> length (fst (snd (snd st)))"
        "fst m = fst st + k" "fst (snd (snd m)) = drop k (fst (snd (snd st)))" by blast
      from adv k have "0 < k" by simp
      with k have "Suc (length (fst (snd (snd m)))) \<le> length (fst (snd (snd st)))" by simp
      with Cons.prems Cons have "length (fst (snd (snd m))) \<le> length left1"
        "length (fst (snd (snd m))) \<le> length left2'" by simp_all
      then show ?thesis by (rule Cons.IH)
    qed
    then have eq: "map (iterate greedy r left1) (progress (fst st) (rmatch r st)) =
                   map (iterate greedy r left2') (progress (fst st) (rmatch r st))"
      by (intro map_cong refl)
    show ?thesis unfolding Cons iterate.simps(2) eq by (rule refl)
  qed
qed

text \<open>
  So the two stars obey the equations of the unbounded stars: a greedy star tries the
  iterations that go further on and then stops, a lazy star stops and then tries them.
\<close>

lemma iterate_as_star:
  "length (fst (snd (snd st))) \<le> length left \<Longrightarrow>
   iterate True r left st = rmatch (Star r) st \<and> iterate False r left st = rmatch (Lazy r) st"
proof -
  assume a: "length (fst (snd (snd st))) \<le> length left"
  obtain p prev rest c where st: "st = (p, prev, rest, c)" by (cases st)
  from a st have "iterate greedy r left st = iterate greedy r rest st" for greedy
    by (intro iterate_count) simp_all
  with st show ?thesis by (simp add: rmatch.simps)
qed

lemma star_unfold:
  "rmatch (Star r) st = concat (map (rmatch (Star r)) (progress (fst st) (rmatch r st))) @ [st]"
  "rmatch (Lazy r) st = st # concat (map (rmatch (Lazy r)) (progress (fst st) (rmatch r st)))"
proof -
  obtain p prev rest c where st: "st = (p, prev, rest, c)" by (cases st)
  have stuck: "progress (fst st) (rmatch r st) = []" if "rest = []"
  proof -
    from that st have "\<forall>m\<in>set (rmatch r st). fst m \<le> fst st"
      using rmatch_iterate_consumes(1) by fastforce
    then show ?thesis by (rule progress_none)
  qed
  have next_star: "iterate True r left m = rmatch (Star r) m \<and>
                   iterate False r left m = rmatch (Lazy r) m"
    if "m \<in> set (progress (fst st) (rmatch r st))" and "rest = x # left" for m x left
  proof -
    from that have m: "m \<in> set (rmatch r st)" and adv: "fst st < fst m"
      using progress_mem by blast+
    from rmatch_iterate_consumes(1) [OF m] obtain k where k: "k \<le> length (fst (snd (snd st)))"
      "fst m = fst st + k" "fst (snd (snd m)) = drop k (fst (snd (snd st)))" by blast
    from adv k have "0 < k" by simp
    with k st that have "length (fst (snd (snd m))) \<le> length left" by simp
    then show ?thesis by (rule iterate_as_star)
  qed
  show "rmatch (Star r) st = concat (map (rmatch (Star r)) (progress (fst st) (rmatch r st))) @ [st]"
  proof (cases rest)
    case Nil
    with st stuck show ?thesis by (simp add: rmatch.simps iterate.simps)
  next
    case (Cons x left)
    with next_star have eq: "map (iterate True r left) (progress (fst st) (rmatch r st)) =
                             map (rmatch (Star r)) (progress (fst st) (rmatch r st))"
      by (intro map_cong refl) blast
    have "rmatch (Star r) st = iterate True r (x # left) st"
      using st Cons by (simp add: rmatch.simps)
    also have "\<dots> = concat (map (iterate True r left) (progress (fst st) (rmatch r st))) @ [st]"
      by (simp add: iterate.simps)
    finally show ?thesis unfolding eq .
  qed
  show "rmatch (Lazy r) st = st # concat (map (rmatch (Lazy r)) (progress (fst st) (rmatch r st)))"
  proof (cases rest)
    case Nil
    with st stuck show ?thesis by (simp add: rmatch.simps iterate.simps)
  next
    case (Cons x left)
    with next_star have eq: "map (iterate False r left) (progress (fst st) (rmatch r st)) =
                             map (rmatch (Lazy r)) (progress (fst st) (rmatch r st))"
      by (intro map_cong refl) blast
    have "rmatch (Lazy r) st = iterate False r (x # left) st"
      using st Cons by (simp add: rmatch.simps)
    also have "\<dots> = st # concat (map (iterate False r left) (progress (fst st) (rmatch r st)))"
      by (simp add: iterate.simps)
    finally show ?thesis unfolding eq .
  qed
qed

subsection \<open>The code units of the ASCII characters\<close>

lemma ch_code:
  "ch (CHR 0x09) = 9"
  "ch (CHR 0x0A) = 10"
  "ch (CHR 0x0D) = 13"
  "ch (CHR 0x20) = 32"
  "ch (CHR 0x21) = 33"
  "ch (CHR 0x22) = 34"
  "ch (CHR 0x23) = 35"
  "ch (CHR 0x24) = 36"
  "ch (CHR 0x25) = 37"
  "ch (CHR 0x26) = 38"
  "ch (CHR 0x27) = 39"
  "ch (CHR 0x28) = 40"
  "ch (CHR 0x29) = 41"
  "ch (CHR 0x2A) = 42"
  "ch (CHR 0x2B) = 43"
  "ch (CHR 0x2C) = 44"
  "ch (CHR 0x2D) = 45"
  "ch (CHR 0x2E) = 46"
  "ch (CHR 0x2F) = 47"
  "ch (CHR 0x30) = 48"
  "ch (CHR 0x31) = 49"
  "ch (CHR 0x32) = 50"
  "ch (CHR 0x33) = 51"
  "ch (CHR 0x34) = 52"
  "ch (CHR 0x35) = 53"
  "ch (CHR 0x36) = 54"
  "ch (CHR 0x37) = 55"
  "ch (CHR 0x38) = 56"
  "ch (CHR 0x39) = 57"
  "ch (CHR 0x3A) = 58"
  "ch (CHR 0x3B) = 59"
  "ch (CHR 0x3C) = 60"
  "ch (CHR 0x3D) = 61"
  "ch (CHR 0x3E) = 62"
  "ch (CHR 0x3F) = 63"
  "ch (CHR 0x40) = 64"
  "ch (CHR 0x41) = 65"
  "ch (CHR 0x42) = 66"
  "ch (CHR 0x43) = 67"
  "ch (CHR 0x44) = 68"
  "ch (CHR 0x45) = 69"
  "ch (CHR 0x46) = 70"
  "ch (CHR 0x47) = 71"
  "ch (CHR 0x48) = 72"
  "ch (CHR 0x49) = 73"
  "ch (CHR 0x4A) = 74"
  "ch (CHR 0x4B) = 75"
  "ch (CHR 0x4C) = 76"
  "ch (CHR 0x4D) = 77"
  "ch (CHR 0x4E) = 78"
  "ch (CHR 0x4F) = 79"
  "ch (CHR 0x50) = 80"
  "ch (CHR 0x51) = 81"
  "ch (CHR 0x52) = 82"
  "ch (CHR 0x53) = 83"
  "ch (CHR 0x54) = 84"
  "ch (CHR 0x55) = 85"
  "ch (CHR 0x56) = 86"
  "ch (CHR 0x57) = 87"
  "ch (CHR 0x58) = 88"
  "ch (CHR 0x59) = 89"
  "ch (CHR 0x5A) = 90"
  "ch (CHR 0x5B) = 91"
  "ch (CHR 0x5C) = 92"
  "ch (CHR 0x5D) = 93"
  "ch (CHR 0x5E) = 94"
  "ch (CHR 0x5F) = 95"
  "ch (CHR 0x60) = 96"
  "ch (CHR 0x61) = 97"
  "ch (CHR 0x62) = 98"
  "ch (CHR 0x63) = 99"
  "ch (CHR 0x64) = 100"
  "ch (CHR 0x65) = 101"
  "ch (CHR 0x66) = 102"
  "ch (CHR 0x67) = 103"
  "ch (CHR 0x68) = 104"
  "ch (CHR 0x69) = 105"
  "ch (CHR 0x6A) = 106"
  "ch (CHR 0x6B) = 107"
  "ch (CHR 0x6C) = 108"
  "ch (CHR 0x6D) = 109"
  "ch (CHR 0x6E) = 110"
  "ch (CHR 0x6F) = 111"
  "ch (CHR 0x70) = 112"
  "ch (CHR 0x71) = 113"
  "ch (CHR 0x72) = 114"
  "ch (CHR 0x73) = 115"
  "ch (CHR 0x74) = 116"
  "ch (CHR 0x75) = 117"
  "ch (CHR 0x76) = 118"
  "ch (CHR 0x77) = 119"
  "ch (CHR 0x78) = 120"
  "ch (CHR 0x79) = 121"
  "ch (CHR 0x7A) = 122"
  "ch (CHR 0x7B) = 123"
  "ch (CHR 0x7C) = 124"
  "ch (CHR 0x7D) = 125"
  "ch (CHR 0x7E) = 126"
  by (simp_all add: ch_def)

lemmas run_string = js_def ch_code

section \<open>validateInput\<close>

lemma trim_all_space:
  assumes "list_all is_space s"
  shows "trim s = []"
proof -
  from assms have empty: "dropWhile is_space s = []" by (induction s) simp_all
  show ?thesis unfolding trim_def empty by simp
qed

lemma title_neq_text: "js ''text'' \<noteq> js ''title''"
  by (simp add: js_def)

text \<open>
  C8. Title validation raises the three error kinds: a string that is made of one to
  255 white-space characters (such as three blanks) fails with \<open>EmptyInput\<close>, a string
  of 256 characters fails with \<open>TooLong\<close>, and \<open>null\<close> fails with \<open>InvalidType\<close>.
\<close>

theorem validate_title_errors:
  "(s \<noteq> [] \<and> list_all is_space s \<and> length s \<le> 255 \<longrightarrow>
      validateInput (JStr s) (js ''title'') = Inl EmptyInput) \<and>
   (length t = 256 \<longrightarrow> validateInput (JStr t) (js ''title'') = Inl TooLong) \<and>
   validateInput JNull (js ''title'') = Inl InvalidType"
  by (auto simp: validateInput_def trim_all_space)

theorem validate_title_errors_witness:
  "validateInput (JStr (js ''   '')) (js ''title'') = Inl EmptyInput \<and>
   validateInput (JStr (replicate 256 (ch CHR ''a''))) (js ''title'') = Inl TooLong \<and>
   validateInput JNull (js ''title'') = Inl InvalidType"
  using validate_title_errors [of "js ''   ''" "replicate 256 (ch CHR ''a'')"]
  by (simp add: js_def ch_code is_space_def)

text \<open>
  C7, as the code has it. For every string \<open>s\<close> that is not empty, body validation
  succeeds and returns \<open>s\<close> trimmed; body validation never fails with \<open>EmptyInput\<close> or
  \<open>TooLong\<close>; it fails with \<open>InvalidType\<close> exactly when the input is not a string or is
  the empty string, so an empty body is not accepted. A body is any kind other than
  \<open>'title'\<close>.
\<close>

theorem validate_body:
  "type \<noteq> js ''title'' \<Longrightarrow>
     (s \<noteq> [] \<longrightarrow> validateInput (JStr s) type = Inr (trim s)) \<and>
     validateInput v type \<noteq> Inl EmptyInput \<and>
     validateInput v type \<noteq> Inl TooLong \<and>
     ((validateInput v type = Inl InvalidType) = (v = JStr [] \<or> not_string v))"
  by (cases v) (auto simp: validateInput_def)

theorem validate_body_witness:
  "js ''text'' \<noteq> js ''title'' \<and>
   validateInput (JStr (js '' a b '')) (js ''text'') = Inr (js ''a b'') \<and>
   validateInput (JStr (js '' a b '')) (js ''text'') \<noteq> Inl EmptyInput \<and>
   validateInput (JStr (js '' a b '')) (js ''text'') \<noteq> Inl TooLong \<and>
   validateInput (JStr (js '' a b '')) (js ''text'') \<noteq> Inl InvalidType"
  using validate_body [OF title_neq_text, of "js '' a b ''" "JStr (js '' a b '')"]
  by (simp add: js_def ch_code trim_def is_space_def)

text \<open>The empty string is a string, and body validation rejects it.\<close>

theorem validate_body_empty: "validateInput (JStr []) (js ''text'') = Inl InvalidType"
  by (simp add: validateInput_def)

section \<open>Absent input\<close>




section \<open>The matches lie in order\<close>

lemma in_order_from: "in_order src ms \<Longrightarrow> src' \<le> src \<Longrightarrow> in_order src' ms"
  by (cases ms) auto

lemma match_all_in_order: "in_order (p + skip) (match_all r skip p prev rest)"
proof (induction rest arbitrary: skip p prev)
  case Nil
  show ?case
  proof (cases "match_at r p prev []")
    case None
    then show ?thesis by (simp add: match_all.simps)
  next
    case (Some m)
    obtain e c where m: "m = (e, c)" by (cases m)
    with Some have "p \<le> e" using match_at_mono by blast
    with Some m show ?thesis by (simp add: match_all.simps)
  qed
next
  case (Cons x xs)
  show ?case
  proof (cases "0 < skip")
    case True
    with Cons [of "Suc p" "skip - 1" "Some x"] show ?thesis by (simp add: match_all.simps)
  next
    case False
    show ?thesis
    proof (cases "match_at r p prev (x # xs)")
      case None
      from Cons [of "Suc p" 0 "Some x"] have "in_order p (match_all r 0 (Suc p) (Some x) xs)"
        by (rule in_order_from) simp
      with False None show ?thesis by (simp add: match_all.simps)
    next
      case (Some m)
      obtain e c where m: "m = (e, c)" by (cases m)
      with Some have pe: "p \<le> e" using match_at_mono by blast
      from Cons [of "Suc p" "e - Suc p" "Some x"]
      have "in_order e (match_all r (e - Suc p) (Suc p) (Some x) xs)"
        by (rule in_order_from) simp
      with False Some m pe show ?thesis by (simp add: match_all.simps)
    qed
  qed
qed

section \<open>A replacement by the empty string only deletes\<close>

lemma subseq_drop_drop: "i \<le> e \<Longrightarrow> subseq (drop e s) (drop i s)"
proof -
  assume "i \<le> e"
  then have "drop (e - i) (drop i s) = drop e s" by simp
  moreover have "drop i s = take (e - i) (drop i s) @ drop (e - i) (drop i s)"
    by (rule append_take_drop_id [symmetric])
  ultimately have "drop i s = take (e - i) (drop i s) @ drop e s" by (simp only:)
  then show ?thesis by (metis subseq_drop_many subseq_order.order_refl)
qed

lemma rebuild_empty_subseq:
  "in_order src ms \<Longrightarrow> subseq (rebuild s src (map (expand r [] s) ms)) (drop src s)"
proof (induction ms arbitrary: src)
  case Nil
  then show ?case by simp
next
  case (Cons m ms)
  obtain i e c where m: "m = (i, e, c)" by (cases m)
  with Cons.prems have ord: "src \<le> i" "i \<le> e" "in_order e ms" by auto
  from Cons.IH [OF ord(3)] have "subseq (rebuild s e (map (expand r [] s) ms)) (drop e s)" .
  moreover from ord(2) have "subseq (drop e s) (drop i s)" by (rule subseq_drop_drop)
  ultimately have tail: "subseq (rebuild s e (map (expand r [] s) ms)) (drop i s)"
    by (rule subseq_order.order_trans)
  from ord(1) have "drop (i - src) (drop src s) = drop i s" by simp
  moreover have "drop src s = take (i - src) (drop src s) @ drop (i - src) (drop src s)"
    by (rule append_take_drop_id [symmetric])
  ultimately have split: "drop src s = take (i - src) (drop src s) @ drop i s" by (simp only:)
  have "subseq (take (i - src) (drop src s) @ rebuild s e (map (expand r [] s) ms))
          (take (i - src) (drop src s) @ drop i s)"
    using tail by (simp only: subseq_append')
  with split m show ?case by (simp add: substring_def)
qed

lemma replace_empty_subseq: "subseq (replace_str r [] s) s"
proof -
  have "in_order 0 (match_all r 0 0 None s)" using match_all_in_order [of 0 0 r None s] by simp
  then have "subseq (rebuild s 0 (map (expand r [] s) (match_all r 0 0 None s))) (drop 0 s)"
    by (rule rebuild_empty_subseq)
  then show ?thesis by (simp add: replace_str_def)
qed

lemma fold_remove_dangerous_subseq: "subseq (fold remove_dangerous tags s) s"
proof (induction tags arbitrary: s)
  case Nil
  then show ?case by simp
next
  case (Cons tag tags)
  have "subseq (fold remove_dangerous tags (remove_dangerous tag s)) (remove_dangerous tag s)"
    by (rule Cons.IH)
  moreover have "subseq (remove_dangerous tag s) s"
    by (simp add: remove_dangerous_def replace_empty_subseq)
  ultimately show ?case using subseq_order.order_trans by fastforce
qed

lemma sanitize_string_subseq: "subseq (sanitize_string h) h"
proof -
  let ?t1 = "replace_str script_block_re [] h"
  let ?t2 = "replace_str handler_re [] ?t1"
  let ?t3 = "replace_str javascript_re [] ?t2"
  have "subseq (fold remove_dangerous dangerous ?t3) ?t3" by (rule fold_remove_dangerous_subseq)
  also have "subseq ?t3 ?t2" by (rule replace_empty_subseq)
  also have "subseq ?t2 ?t1" by (rule replace_empty_subseq)
  also have "subseq ?t1 h" by (rule replace_empty_subseq)
  finally show ?thesis by (simp add: sanitize_string_def)
qed

text \<open>
  C10. Every rule of \<open>sanitizeHTML\<close> replaces its matches by the empty string, so the
  result is the input with some code units deleted: a subsequence of the input, with
  nothing inserted, and not longer than the input.
\<close>

theorem sanitize_only_deletes:
  "\<exists>r. sanitizeHTML (JStr h) = Inr r \<and> subseq r h \<and> length r \<le> length h"
proof -
  have "subseq (sanitize_string h) h" by (rule sanitize_string_subseq)
  moreover from this have "length (sanitize_string h) \<le> length h" by (rule list_emb_length)
  ultimately show ?thesis by (simp add: sanitizeHTML_def)
qed

section \<open>escapeForAppleScript\<close>

text \<open>A pattern that cannot begin at any code unit of the input leaves it as it is.\<close>

lemma match_all_none:
  "\<not> nullable r \<Longrightarrow> \<forall>x\<in>set rest. \<not> first r x \<Longrightarrow> match_all r 0 p prev rest = []"
proof (induction rest arbitrary: p prev)
  case Nil
  then show ?case by (simp add: match_all.simps match_at_end)
next
  case (Cons x xs)
  from Cons.prems have "\<not> may_start r x" by (simp add: may_start_def)
  then have "match_all r 0 p prev (x # xs) = match_all r 0 (Suc p) (Some x) xs"
    by (rule match_all_pass)
  with Cons show ?case by simp
qed

lemma replace_str_none:
  "\<not> nullable r \<Longrightarrow> \<forall>x\<in>set s. \<not> first r x \<Longrightarrow> replace_str r tpl s = s"
  by (simp add: replace_str_def match_all_none)

lemma escape_chars_letters:
  "escape_chars (replicate n (ch CHR ''a'')) = replicate n (ch CHR ''a'')"
  unfolding escape_chars_def Let_def
  by (simp add: replace_str_none tell_re_def end_tell_re_def control_re_def separator_re_def
      zero_width_re_def backslash_def patterns ch_code ascii_fold_def)

lemma escape_chars_empty: "escape_chars [] = []"
  using escape_chars_letters [of 0] by simp

lemma marker_length: "length (js ''... (truncated)'') = 15"
  by (simp add: js_def)

text \<open>
  C4, as the code has it. The escaped text is cut to 50,000 characters when it is
  longer, and the marker \<open>... (truncated)\<close> of 15 characters is appended after the
  cut: the result has at most 50,015 characters.
\<close>

theorem escape_length:
  "escapeForAppleScript (JStr s) =
     Inr (if 50000 < length (escape_chars s)
          then take 50000 (escape_chars s) @ js ''... (truncated)''
          else escape_chars s) \<and>
   (\<exists>r. escapeForAppleScript (JStr s) = Inr r \<and> length r \<le> 50015)"
proof (cases "s = []")
  case True
  then show ?thesis by (simp add: escapeForAppleScript_def escape_chars_empty)
next
  case False
  then show ?thesis
    by (simp add: escapeForAppleScript_def maxLength_def substring_def Let_def marker_length)
qed

text \<open>A text of 50,001 letters is escaped to 50,015 characters, more than 50,000.\<close>

theorem escape_length_exceeded:
  "escapeForAppleScript (JStr (replicate 50001 (ch CHR ''a''))) =
     Inr (replicate 50000 (ch CHR ''a'') @ js ''... (truncated)'') \<and>
   length (replicate 50000 (ch CHR ''a'') @ js ''... (truncated)'') = 50015"
  by (simp add: escapeForAppleScript_def escape_chars_letters maxLength_def substring_def
      marker_length)

section \<open>Runs of the program on given inputs\<close>

lemmas run_sanitize =
  sanitizeHTML_def sanitize_string_def remove_dangerous_def dangerous_def script_block_re_def
  handler_re_def javascript_re_def dangerous_re_def

lemmas run_escape =
  escapeForAppleScript_def escape_chars_def maxLength_def tell_re_def end_tell_re_def
  control_re_def separator_re_def zero_width_re_def backslash_def

lemmas run_render =
  convertToHTML_def markdown_rules_def code_block_re_def inline_code_re_def heading_re_def
  bullets_re_def numbered_re_def bold_re_def italic_re_def rule_re_def bullet_list_def
  numbered_list_def list_items_def list_item_def

lemmas run_extract =
  convertHTMLToMarkdown_def html_rules_def element_re_def comment_re_def code_quote_re_def
  hr_re_def br_re_def link_re_def any_tag_re_def newlines3_re_def unordered_list_def
  ordered_list_def

text \<open>
  C1. The sanitizer makes one pass for each rule, and what is left of a removed match
  can join into a new one. A script element written around two inner \<open><script>\<close> tags
  comes out as a complete script element; a handler attribute and a \<open>javascript:\<close>
  token written around an inner one come out whole as well.
\<close>

theorem sanitize_leaves_script:
  \<open>sanitizeHTML (JStr (js ''<scr<script>ipt>alert(1)</scr<script>ipt>'')) =
     Inr (js ''<script>alert(1)</script>'') \<and>
   sanitizeHTML (JStr (js ''<img src=x oonerror="x"nerror="alert(1)">'')) =
     Inr (js ''<img src=x onerror="alert(1)">'') \<and>
   sanitizeHTML (JStr (js ''javajavascript:script:alert(1)'')) =
     Inr (js ''javascript:alert(1)'')\<close>
  unfolding run_sanitize Let_def
  by (simp add: run_matcher run_replace run_string patterns)

text \<open>
  C3. Sanitizing \<open><scr<script>ipt>\<close> gives \<open><script>\<close>, and sanitizing that gives the
  empty string: the second application changes the result of the first.
\<close>

theorem sanitize_twice_differs:
  "sanitizeHTML (JStr (js ''<scr<script>ipt>'')) = Inr (js ''<script>'') \<and>
   sanitizeHTML (JStr (js ''<script>'')) = Inr []"
  unfolding run_sanitize Let_def
  by (simp add: run_matcher run_replace run_string patterns)

text \<open>
  C2. The keyword is neutralised before the braces are removed, so \<open>te{ll\<close> is escaped
  to the whole word \<open>tell\<close>, and \<open>end te}ll\<close> to \<open>end tell\<close>.
\<close>

theorem escape_leaves_tell:
  "escapeForAppleScript (JStr (js ''te{ll'')) = Inr (js ''tell'') \<and>
   escapeForAppleScript (JStr (js ''end te}ll'')) = Inr (js ''end tell'')"
  unfolding run_escape Let_def
  by (simp add: run_matcher run_replace run_string patterns)

text \<open>
  C5. The replacer of the list items of an ordered list is a function, and the \<open>$1\<close>
  in the string it returns is not expanded: each item becomes its number followed by
  the text \<open>$1\<close>, not by the text of the item. The numbers do start again at 1 in
  each list.
\<close>

theorem ordered_list_loses_items:
  "convertHTMLToMarkdown (JStr (js ''<ol><li>First</li><li>Second</li></ol>'')) =
     Inr (js ''1. $1\<newline>2. $1'') \<and>
   convertHTMLToMarkdown (JStr (js ''<ol><li>a</li><li>b</li></ol><ol><li>c</li></ol>'')) =
     Inr (js ''1. $1\<newline>2. $1\<newline>\<newline>1. $1'')"
  unfolding run_extract Let_def
  by (simp add: run_matcher run_replace run_string patterns)

section \<open>The markdown scenario, rendered and extracted\<close>

lemma render_scenario: "convertToHTML (JStr scenario_body) = Inr scenario_html"
  unfolding scenario_body_def scenario_html_def run_render run_sanitize Let_def
  by (simp add: run_matcher run_replace run_string patterns)

lemma extract_scenario: "convertHTMLToMarkdown (JStr scenario_html) = Inr scenario_body"
  unfolding scenario_body_def scenario_html_def run_extract Let_def
  by (simp add: run_matcher run_replace run_string patterns)

text \<open>
  C9. The scenario body is rendered to HTML, and the extraction of that HTML gives the
  body back. Its lines are a level-1 heading line, an empty line, a line with a bold
  span and then an italic span, an empty line, and two bullet lines, in this order.
\<close>

theorem scenario_round_trip:
  "convertToHTML (JStr scenario_body) = Inr scenario_html \<and>
   convertHTMLToMarkdown (JStr scenario_html) = Inr scenario_body \<and>
   split_on 10 scenario_body =
     [js ''# Heading'', [], js ''**Bold** and *italic* text.'', [], js ''- Item 1'',
      js ''- Item 2''] \<and>
   in_sequence [js ''**Bold**'', js ''*italic*''] (js ''**Bold** and *italic* text.'')"
proof -
  have "split_on 10 scenario_body =
     [js ''# Heading'', [], js ''**Bold** and *italic* text.'', [], js ''- Item 1'',
      js ''- Item 2'']"
    by (simp add: scenario_body_def run_string)
  moreover have "in_sequence [js ''**Bold**'', js ''*italic*''] (js ''**Bold** and *italic* text.'')"
    by (simp add: run_string)
  ultimately show ?thesis using render_scenario extract_scenario by simp
qed

end
